theory Spec2Isabelle
  imports
    Complex_Main
    "HOL-Library.Word"
    "HOL-Library.Sublist"
    "HOL-Library.Multiset"
    "HOL-Library.Char_ord"
    "HOL-Library.List_Lexorder"
begin

section \<open>Python values and exceptions\<close>

text \<open>
  The values \<open>json.loads\<close> can return, and the values the service hands to
  \<open>json.dumps\<close>. A dictionary is an association list; a float is only ever copied
  by the code below, never computed with, so its carrier is \<open>real\<close>.
\<close>

datatype pyval =
    PNone
  | PBool bool
  | PInt int
  | PFloat real
  | PStr string
  | PList "pyval list"
  | PDict "(string \<times> pyval) list"

text \<open>
  The exceptions that matter below. All of them are subclasses of Python's
  \<open>Exception\<close>; \<open>OtherError\<close> stands for any further subclass (a detector failure,
  a recursion limit and so on).
\<close>

datatype exn = KeyError | TypeError | ValueError | OverflowError | JSONDecodeError | OtherError

text \<open>\<open>obj[key]\<close> with a string key: only a dictionary can be subscripted by a string.\<close>

fun getitem :: "pyval \<Rightarrow> string \<Rightarrow> exn + pyval" where
  "getitem (PDict kvs) k = (case map_of kvs k of None \<Rightarrow> Inl KeyError | Some v \<Rightarrow> Inr v)"
| "getitem _ k = Inl TypeError"

section \<open>The array library, as far as the relay uses it\<close>

type_synonym byte = "8 word"

record ndarray =
  shape :: "int list"
  samples :: "byte list"

text \<open>
  \<open>np.array(v, dtype=np.uint8)\<close>. On a flat list of integers in \<open>0..255\<close> the result
  is the one-dimensional array of those samples. What the library does with every other
  value (nested lists, numbers out of range, floats, strings) depends on its version and
  is left to the environment, as \<open>other\<close>.
\<close>

fun uint8_sample :: "pyval \<Rightarrow> byte option" where
  "uint8_sample (PInt n) = (if 0 \<le> n \<and> n \<le> 255 then Some (word_of_int n) else None)"
| "uint8_sample _ = None"

fun flat_samples :: "pyval list \<Rightarrow> byte list option" where
  "flat_samples [] = Some []"
| "flat_samples (v # vs) =
     (case uint8_sample v of
        None \<Rightarrow> None
      | Some b \<Rightarrow> (case flat_samples vs of None \<Rightarrow> None | Some bs \<Rightarrow> Some (b # bs)))"

fun np_array_uint8 :: "(pyval \<Rightarrow> exn + ndarray) \<Rightarrow> pyval \<Rightarrow> exn + ndarray" where
  "np_array_uint8 other (PList vs) =
     (case flat_samples vs of
        Some bs \<Rightarrow> Inr \<lparr>shape = [int (length bs)], samples = bs\<rparr>
      | None \<Rightarrow> other (PList vs))"
| "np_array_uint8 other v = other v"

text \<open>
  A dimension of a shape must be a Python \<open>int\<close> (a \<open>bool\<close> is refused) that fits the
  machine's index type.
\<close>

fun as_dim :: "pyval \<Rightarrow> exn + int" where
  "as_dim (PInt n) = (if - (2 ^ 63) \<le> n \<and> n < 2 ^ 63 then Inr n else Inl OverflowError)"
| "as_dim _ = Inl TypeError"

fun as_dims :: "pyval list \<Rightarrow> exn + int list" where
  "as_dims [] = Inr []"
| "as_dims (v # vs) =
     (case as_dim v of
        Inl e \<Rightarrow> Inl e
      | Inr d \<Rightarrow> (case as_dims vs of Inl e \<Rightarrow> Inl e | Inr ds \<Rightarrow> Inr (d # ds)))"

text \<open>
  \<open>a.reshape(dims)\<close>: a negative dimension (documented as \<open>-1\<close>) is the unknown one and
  is inferred from the size of the array; there can be only one. Without an unknown
  dimension the product of the dimensions must be the size of the array. The arithmetic
  on the dimensions is exact here.
\<close>

definition reshape_dims :: "ndarray \<Rightarrow> int list \<Rightarrow> exn + ndarray" where
  "reshape_dims a dims =
     (let s_original = int (length (samples a));
          s_known = prod_list (filter (\<lambda>d. 0 \<le> d) dims);
          unknown = filter (\<lambda>d. d < 0) dims
      in if 1 < length unknown then Inl ValueError
         else if length unknown = 1 then
           (if s_known = 0 \<or> s_original mod s_known \<noteq> 0 then Inl ValueError
            else Inr (a\<lparr>shape := map (\<lambda>d. if d < 0 then s_original div s_known else d) dims\<rparr>))
         else if s_original \<noteq> s_known then Inl ValueError
         else Inr (a\<lparr>shape := dims\<rparr>))"

definition reshape :: "ndarray \<Rightarrow> pyval list \<Rightarrow> exn + ndarray" where
  "reshape a vs = (case as_dims vs of Inl e \<Rightarrow> Inl e | Inr dims \<Rightarrow> reshape_dims a dims)"

section \<open>The frame relay service (mediapipe\_service.py)\<close>

text \<open>
  A landmark as the detector reports it. The detectors keep tracking state between
  frames (\<open>static_image_mode=False\<close>), so a call takes the state \<open>'d\<close> of the two
  detector objects and returns the new one, together with either an exception or what
  the result object carries: \<open>None\<close> when nothing was detected.
\<close>

datatype landmark = Landmark (lm_x: real) (lm_y: real) (lm_z: real)

record 'd env =
  json_loads :: "string \<Rightarrow> exn + pyval"
  np_array_other :: "pyval \<Rightarrow> exn + ndarray"
  cvt_color :: "ndarray \<Rightarrow> exn + ndarray"
  pose_process :: "'d \<Rightarrow> ndarray \<Rightarrow> (exn + landmark list option) \<times> 'd"
  hands_process :: "'d \<Rightarrow> ndarray \<Rightarrow> (exn + landmark list list option) \<times> 'd"
  import_packages :: "exn option"
  service_init :: "exn + 'd"

definition xyz :: "landmark \<Rightarrow> pyval" where
  "xyz lm = PList [PFloat (lm_x lm), PFloat (lm_y lm), PFloat (lm_z lm)]"

definition empty_result :: pyval where
  "empty_result = PDict [(''pose_landmarks'', PList []), (''hand_landmarks'', PList [])]"

text \<open>
  The result dictionary the code assembles: both keys are set to the empty list first,
  the pose entry is replaced when the detector returned a landmark list, and one entry
  per detected hand is appended.
\<close>

definition build_result :: "landmark list option \<Rightarrow> landmark list list option \<Rightarrow> pyval" where
  "build_result pose_results hands_results =
     PDict [(''pose_landmarks'',
               PList (case pose_results of None \<Rightarrow> [] | Some lms \<Rightarrow> map xyz lms)),
            (''hand_landmarks'',
               PList (case hands_results of None \<Rightarrow> [] | Some hs \<Rightarrow> map (\<lambda>h. PList (map xyz h)) hs))]"

text \<open>The body of the \<open>try\<close> block of \<open>MediaPipeService.process_frame\<close>.\<close>

definition process_frame_try :: "'d env \<Rightarrow> 'd \<Rightarrow> pyval \<Rightarrow> (exn + pyval) \<times> 'd" where
  "process_frame_try env s frame_data =
     (case getitem frame_data ''width'' of Inl e \<Rightarrow> (Inl e, s) | Inr width \<Rightarrow>
     (case getitem frame_data ''height'' of Inl e \<Rightarrow> (Inl e, s) | Inr height \<Rightarrow>
     (case getitem frame_data ''data'' of Inl e \<Rightarrow> (Inl e, s) | Inr d \<Rightarrow>
     (case np_array_uint8 (np_array_other env) d of Inl e \<Rightarrow> (Inl e, s) | Inr data \<Rightarrow>
     (case reshape data [height, width, PInt 3] of Inl e \<Rightarrow> (Inl e, s) | Inr frame \<Rightarrow>
     (case pose_process env s frame of (Inl e, s1) \<Rightarrow> (Inl e, s1) | (Inr pose_results, s1) \<Rightarrow>
     (case hands_process env s1 frame of (Inl e, s2) \<Rightarrow> (Inl e, s2) | (Inr hands_results, s2) \<Rightarrow>
        (Inr (build_result pose_results hands_results), s2))))))))"

text \<open>
  \<open>MediaPipeService.process_frame\<close>: the \<open>try\<close> block under \<open>except Exception\<close>, whose
  handler returns the empty result. The value is still typed as "exception or
  dictionary", so that returning normally is something to prove.
\<close>

definition process_frame :: "'d env \<Rightarrow> 'd \<Rightarrow> pyval \<Rightarrow> (exn + pyval) \<times> 'd" where
  "process_frame env s frame_data =
     (case process_frame_try env s frame_data of
        (Inl e, s') \<Rightarrow> (Inr empty_result, s')
      | (Inr result, s') \<Rightarrow> (Inr result, s'))"

text \<open>The keys of a dictionary, and what it means to be a frame result.\<close>

fun dict_keys :: "pyval \<Rightarrow> string list option" where
  "dict_keys (PDict kvs) = Some (map fst kvs)"
| "dict_keys _ = None"

section \<open>The second relay variant (mediapipe\_processor.py)\<close>

text \<open>
  \<open>MediaPipeProcessor.process_frame\<close> takes the raw bytes of a frame, gives them the
  fixed shape \<open>(720, 1280, 3)\<close>, converts the colour order, runs both detectors and
  returns the text \<open>json.dumps\<close> makes of the result. Nothing here catches an exception.
\<close>

datatype json_text = Json_dumps pyval

definition np_frombuffer :: "byte list \<Rightarrow> ndarray" where
  "np_frombuffer bs = \<lparr>shape = [int (length bs)], samples = bs\<rparr>"

definition processor_process_frame ::
  "'d env \<Rightarrow> 'd \<Rightarrow> byte list \<Rightarrow> (exn + json_text) \<times> 'd" where
  "processor_process_frame env s frame_data =
     (case reshape (np_frombuffer frame_data) [PInt 720, PInt 1280, PInt 3] of
        Inl e \<Rightarrow> (Inl e, s) | Inr frame \<Rightarrow>
     (case cvt_color env frame of Inl e \<Rightarrow> (Inl e, s) | Inr rgb_frame \<Rightarrow>
     (case pose_process env s rgb_frame of (Inl e, s1) \<Rightarrow> (Inl e, s1) | (Inr pose_results, s1) \<Rightarrow>
     (case hands_process env s1 rgb_frame of (Inl e, s2) \<Rightarrow> (Inl e, s2) | (Inr hands_results, s2) \<Rightarrow>
        (Inr (Json_dumps (build_result pose_results hands_results)), s2)))))"

section \<open>The read loop and the entry point (mediapipe\_service.py)\<close>

text \<open>
  What the process does on its standard streams, in order: a line read from standard
  input (the empty string at the end of the stream), the readiness token, or one line
  carrying \<open>json.dumps\<close> of a value. Writes to standard output are taken to succeed,
  and the diagnostics on standard error are left out.
\<close>

datatype event = Read_line string | Print_ready | Print_json pyval

text \<open>
  \<open>sys.stdin.readline()\<close> on the text still to be read: the next line with its newline,
  the unterminated rest at the end of the stream, or the empty string when nothing is
  left. The second component is what remains to be read.
\<close>

fun readline :: "string \<Rightarrow> string \<times> string" where
  "readline [] = ([], [])"
| "readline (c # cs) =
     (if c = CHR 0x0A then ([c], cs)
      else (case readline cs of (l, r) \<Rightarrow> (c # l, r)))"

text \<open>
  One pass through the body of the \<open>while\<close> loop for a non-empty line: the value printed
  and the detector state afterwards. Both \<open>except\<close> clauses of the loop print the empty
  result, so any exception of \<open>json.loads\<close> or of \<open>process_frame\<close> ends there.
\<close>

definition run_iteration :: "'d env \<Rightarrow> 'd \<Rightarrow> string \<Rightarrow> pyval \<times> 'd" where
  "run_iteration env s line =
     (case json_loads env line of
        Inl e \<Rightarrow> (empty_result, s)
      | Inr frame_data \<Rightarrow>
          (case process_frame env s frame_data of
             (Inr result, s') \<Rightarrow> (result, s')
           | (Inl e, s') \<Rightarrow> (empty_result, s')))"

function run_loop :: "'d env \<Rightarrow> 'd \<Rightarrow> string \<Rightarrow> event list" where
  "run_loop env s inp =
     (if fst (readline inp) = [] then [Read_line []]
      else Read_line (fst (readline inp))
           # Print_json (fst (run_iteration env s (fst (readline inp))))
           # run_loop env (snd (run_iteration env s (fst (readline inp)))) (snd (readline inp)))"
  by pat_completeness auto
termination
proof (relation "measure (\<lambda>(env, s, inp). length inp)")
  show "wf (measure (\<lambda>(env :: 'd env, s :: 'd, inp :: string). length inp))"
    by simp
next
  fix env :: "'d env" and s :: 'd and inp :: string
  assume nonempty: "fst (readline inp) \<noteq> []"
  have rest_le: "length (snd (readline i)) \<le> length i" for i
    by (induction i) (auto split: prod.splits)
  have "length (snd (readline inp)) < length inp"
  proof (cases inp)
    case Nil
    with nonempty show ?thesis by simp
  next
    case (Cons c cs)
    then show ?thesis
      using rest_le [of cs] by (auto split: prod.splits)
  qed
  then show "((env, snd (run_iteration env s (fst (readline inp))), snd (readline inp)),
              (env, s, inp)) \<in> measure (\<lambda>(env, s, inp). length inp)"
    by simp
qed

definition run :: "'d env \<Rightarrow> 'd \<Rightarrow> string \<Rightarrow> event list" where
  "run env s inp = Print_ready # run_loop env s inp"

text \<open>
  The module as a script: a failed import exits with status 1 before anything else, a
  failed constructor is caught by the handler of the main block, which exits with
  status 1, and a loop that returns lets the interpreter exit with status 0.
\<close>

record outcome =
  trace :: "event list"
  exit_status :: int

definition main :: "'d env \<Rightarrow> string \<Rightarrow> outcome" where
  "main env inp =
     (case import_packages env of
        Some e \<Rightarrow> \<lparr>trace = [], exit_status = 1\<rparr>
      | None \<Rightarrow>
          (case service_init env of
             Inl e \<Rightarrow> \<lparr>trace = [], exit_status = 1\<rparr>
           | Inr s \<Rightarrow> \<lparr>trace = run env s inp, exit_status = 0\<rparr>))"

text \<open>The result lines among the events, in the order they were printed.\<close>

fun printed :: "event list \<Rightarrow> pyval list" where
  "printed [] = []"
| "printed (Print_json v # evs) = v # printed evs"
| "printed (ev # evs) = printed evs"

subsection \<open>What the specification says about the loop\<close>

text \<open>
  The lines of an input text, each with its newline, the last one possibly without;
  and the answers to a sequence of lines when they are handled one after the other,
  each one with the detector state its predecessors left.
\<close>

fun input_lines :: "string \<Rightarrow> string list" where
  "input_lines [] = []"
| "input_lines (c # cs) =
     (if c = CHR 0x0A then [c] # input_lines cs
      else (case input_lines cs of [] \<Rightarrow> [[c]] | l # ls \<Rightarrow> (c # l) # ls))"

fun responses :: "'d env \<Rightarrow> 'd \<Rightarrow> string list \<Rightarrow> pyval list" where
  "responses env s [] = []"
| "responses env s (l # ls) =
     fst (run_iteration env s l) # responses env (snd (run_iteration env s l)) ls"

fun exchanges :: "string list \<Rightarrow> pyval list \<Rightarrow> event list" where
  "exchanges (l # ls) (r # rs) = Read_line l # Print_json r # exchanges ls rs"
| "exchanges _ _ = []"

text \<open>
  A frame request as the data model has it: the three keys hold an integer width, an
  integer height and a flat list of samples. \<open>frame_fields\<close> reads them off a parsed
  value, \<open>valid_frame\<close> adds the invariant of the data model, and \<open>rejected_line\<close> is an
  input line that is no valid request in one of the two ways the specification names:
  the text does not parse, or it parses to a request with dimensions that are not
  negative whose sample count is not width times height times three.
\<close>

definition frame_fields :: "pyval \<Rightarrow> (int \<times> int \<times> byte list) option" where
  "frame_fields frame_data =
     (case getitem frame_data ''width'' of
        Inr (PInt w) \<Rightarrow>
          (case getitem frame_data ''height'' of
             Inr (PInt h) \<Rightarrow>
               (case getitem frame_data ''data'' of
                  Inr (PList vs) \<Rightarrow>
                    (case flat_samples vs of Some bs \<Rightarrow> Some (w, h, bs) | None \<Rightarrow> None)
                | _ \<Rightarrow> None)
           | _ \<Rightarrow> None)
      | _ \<Rightarrow> None)"

definition valid_frame :: "pyval \<Rightarrow> bool" where
  "valid_frame frame_data =
     (case frame_fields frame_data of
        Some (w, h, bs) \<Rightarrow> 0 < w \<and> 0 < h \<and> int (length bs) = w * h * 3
      | None \<Rightarrow> False)"

definition rejected_line :: "'d env \<Rightarrow> string \<Rightarrow> bool" where
  "rejected_line env line =
     (case json_loads env line of
        Inl e \<Rightarrow> True
      | Inr frame_data \<Rightarrow>
          (case frame_fields frame_data of
             Some (w, h, bs) \<Rightarrow> 0 \<le> w \<and> 0 \<le> h \<and> int (length bs) \<noteq> w * h * 3
           | None \<Rightarrow> False))"

text \<open>
  What the relay does with a frame once it has one: the pose detector, then the hand
  detector on the state the first one left, and the result built from both; an
  exception of either detector gives \<open>None\<close>.
\<close>

definition detect :: "'d env \<Rightarrow> 'd \<Rightarrow> ndarray \<Rightarrow> pyval option \<times> 'd" where
  "detect env s frame =
     (case pose_process env s frame of
        (Inl e, s1) \<Rightarrow> (None, s1)
      | (Inr pose_results, s1) \<Rightarrow>
          (case hands_process env s1 frame of
             (Inl e, s2) \<Rightarrow> (None, s2)
           | (Inr hands_results, s2) \<Rightarrow> (Some (build_result pose_results hands_results), s2)))"

section \<open>The dump utility (combine.py)\<close>

subsection \<open>The file system\<close>

text \<open>
  A resolved absolute path is the list of its components below the root directory. A
  file holds the bytes a read returns, or nothing when reading it fails (permissions,
  an input/output error); a directory holds its entries in the order in which the
  operating system lists them, which is arbitrary. Symbolic links are not modelled, so
  \<open>resolve()\<close> is the identity, and names are text that the output encoding accepts.
\<close>

type_synonym path = "string list"

datatype node = File "byte list option" | Dir "(string \<times> node) list"

fun lookup :: "node \<Rightarrow> path \<Rightarrow> node option" where
  "lookup n [] = Some n"
| "lookup n (c # cs) =
     (case n of
        File content \<Rightarrow> None
      | Dir es \<Rightarrow> (case map_of es c of None \<Rightarrow> None | Some n' \<Rightarrow> lookup n' cs))"

text \<open>
  What the run takes from the Python runtime: reading a file as UTF-8 text (nothing
  when the bytes are not valid UTF-8), decoding bytes with replacement characters, and
  the text of the exception raised when a path cannot be read.
\<close>

record dump_env =
  read_text_utf8 :: "byte list \<Rightarrow> string option"
  decode_replace :: "byte list \<Rightarrow> string"
  error_text :: "path \<Rightarrow> string"

subsection \<open>iter\_files\<close>

text \<open>
  \<open>os.walk\<close> reports a directory with the names of its subdirectories and of its files,
  then descends into the subdirectories still in the list. The loop body first cuts the
  list down to the directories to keep, then yields the files of the directory unless
  the directory is the excluded one or lies below it.
\<close>

definition keep_dir :: "path \<Rightarrow> path \<Rightarrow> string \<Rightarrow> bool" where
  "keep_dir exclude_dir dirpath d = (dirpath @ [d] \<noteq> exclude_dir \<and> \<not> prefix ''.git'' d)"

fun filenames :: "(string \<times> node) list \<Rightarrow> string list" where
  "filenames [] = []"
| "filenames ((fn, File content) # es) = fn # filenames es"
| "filenames ((d, Dir ds) # es) = filenames es"

definition yield_files :: "path \<Rightarrow> path \<Rightarrow> string list \<Rightarrow> path list" where
  "yield_files exclude_dir current fns =
     (if current = exclude_dir \<or> strict_prefix exclude_dir current then []
      else map (\<lambda>fn. current @ [fn]) (filter (\<lambda>fn. fn \<noteq> ''.DS_Store'') fns))"

fun walk :: "path \<Rightarrow> path \<Rightarrow> node \<Rightarrow> path list"
  and walk_dirs :: "path \<Rightarrow> path \<Rightarrow> (string \<times> node) list \<Rightarrow> path list" where
  "walk exclude_dir current (File content) = []"
| "walk exclude_dir current (Dir es) =
     yield_files exclude_dir current (filenames es) @ walk_dirs exclude_dir current es"
| "walk_dirs exclude_dir current [] = []"
| "walk_dirs exclude_dir current ((d, File content) # es) = walk_dirs exclude_dir current es"
| "walk_dirs exclude_dir current ((d, Dir ds) # es) =
     (if keep_dir exclude_dir current d then walk exclude_dir (current @ [d]) (Dir ds) else [])
     @ walk_dirs exclude_dir current es"

definition iter_files :: "node \<Rightarrow> path \<Rightarrow> path \<Rightarrow> path list" where
  "iter_files fs root_dir exclude_dir =
     (case lookup fs root_dir of None \<Rightarrow> [] | Some n \<Rightarrow> walk exclude_dir root_dir n)"

subsection \<open>read\_file\_as\_text\<close>

definition read_file_as_text :: "dump_env \<Rightarrow> node \<Rightarrow> path \<Rightarrow> string" where
  "read_file_as_text env fs p =
     (case lookup fs p of
        Some (File (Some bytes)) \<Rightarrow>
          (case read_text_utf8 env bytes of
             Some text \<Rightarrow> text
           | None \<Rightarrow> decode_replace env bytes)
      | _ \<Rightarrow> ''<<ERROR READING FILE: '' @ error_text env p @ ''>>'')"

subsection \<open>write\_combined\_output\<close>

text \<open>Paths and numbers as the f-strings print them.\<close>

definition str_abs :: "path \<Rightarrow> string" where
  "str_abs p = (if p = [] then ''/'' else concat (map (\<lambda>c. ''/'' @ c) p))"

fun str_rel :: "path \<Rightarrow> string" where
  "str_rel [] = ''.''"
| "str_rel [c] = c"
| "str_rel (c # cs) = c @ ''/'' @ str_rel cs"

definition digit :: "nat \<Rightarrow> char" where
  "digit n = char_of (48 + n)"

fun str_nat :: "nat \<Rightarrow> string" where
  "str_nat n = (if n < 10 then [digit n] else str_nat (n div 10) @ [digit (n mod 10)])"

definition nl :: string where
  "nl = [CHR 0x0A]"

text \<open>
  \<open>p.relative_to(src_dir)\<close> raises \<open>ValueError\<close> when \<open>p\<close> is not below \<open>src_dir\<close>.
\<close>

definition relative_to :: "path \<Rightarrow> path \<Rightarrow> path option" where
  "relative_to p src_dir = (if prefix src_dir p then Some (drop (length src_dir) p) else None)"

text \<open>
  The two ways the run can end early: the output file cannot be opened, or a path is
  not relative to the source directory.
\<close>

datatype dump_error = Output_error | Not_relative

text \<open>
  \<open>out_file.parent.mkdir(parents=True, exist_ok=True)\<close> succeeds when no component of
  the parent is an existing file, and opening the output for writing succeeds when it
  is not an existing directory.
\<close>

fun mkdir_ok :: "node \<Rightarrow> path \<Rightarrow> bool" where
  "mkdir_ok n [] = (case n of File content \<Rightarrow> False | Dir es \<Rightarrow> True)"
| "mkdir_ok n (c # cs) =
     (case n of
        File content \<Rightarrow> False
      | Dir es \<Rightarrow> (case map_of es c of None \<Rightarrow> True | Some n' \<Rightarrow> mkdir_ok n' cs))"

definition open_ok :: "node \<Rightarrow> path \<Rightarrow> bool" where
  "open_ok fs out_file =
     (out_file \<noteq> [] \<and> mkdir_ok fs (butlast out_file)
      \<and> (case lookup fs out_file of Some (Dir es) \<Rightarrow> False | _ \<Rightarrow> True))"

definition rule80 :: "char \<Rightarrow> string" where
  "rule80 c = replicate 80 c @ nl"

definition file_section :: "dump_env \<Rightarrow> node \<Rightarrow> path \<Rightarrow> path \<Rightarrow> string" where
  "file_section env fs rel p =
     nl @ rule80 CHR ''='' @ ''FILE: '' @ str_rel rel @ nl @ rule80 CHR ''='' @ nl
     @ read_file_as_text env fs p @ nl"

definition extra_section :: "dump_env \<Rightarrow> node \<Rightarrow> path \<Rightarrow> string" where
  "extra_section env fs xp =
     nl @ rule80 CHR ''='' @ ''EXTRA FILE: '' @ str_abs xp @ nl @ rule80 CHR ''='' @ nl
     @ read_file_as_text env fs xp @ nl"

text \<open>The loop over the sorted files, with the text written so far and the count \<open>cnt\<close>.\<close>

fun write_files ::
  "dump_env \<Rightarrow> node \<Rightarrow> path \<Rightarrow> path list \<Rightarrow> string \<times> nat \<Rightarrow> dump_error + string \<times> nat" where
  "write_files env fs src_dir [] (out, cnt) = Inr (out, cnt)"
| "write_files env fs src_dir (p # ps) (out, cnt) =
     (case relative_to p src_dir of
        None \<Rightarrow> Inl Not_relative
      | Some rel \<Rightarrow>
          write_files env fs src_dir ps (out @ file_section env fs rel p, cnt + 1))"

fun write_extras :: "dump_env \<Rightarrow> node \<Rightarrow> path list \<Rightarrow> string \<Rightarrow> string" where
  "write_extras env fs [] out = out"
| "write_extras env fs (xp # xps) out = write_extras env fs xps (out @ extra_section env fs xp)"

definition extras_banner :: string where
  "extras_banner =
     nl @ rule80 CHR ''#'' @ ''# EXTRA FILES (appended after source tree)'' @ nl
     @ rule80 CHR ''#'' @ nl"

record dump_result =
  out_text :: string
  printed_summary :: string

definition dump_header :: "path \<Rightarrow> path \<Rightarrow> string" where
  "dump_header src_dir exclude_dir =
     ''# Combined dump of '' @ str_abs src_dir @ nl
     @ ''# Excluding: '' @ str_abs exclude_dir @ nl @ nl"

definition write_combined_output ::
  "dump_env \<Rightarrow> node \<Rightarrow> path \<Rightarrow> path \<Rightarrow> path \<Rightarrow> path list \<Rightarrow> dump_error + dump_result" where
  "write_combined_output env fs src_dir exclude_dir out_file extra_paths =
     (if \<not> open_ok fs out_file then Inl Output_error
      else
        (let files = sort (iter_files fs src_dir exclude_dir)
         in case write_files env fs src_dir files (dump_header src_dir exclude_dir, 0) of
              Inl e \<Rightarrow> Inl e
            | Inr (out, cnt) \<Rightarrow>
                Inr \<lparr>out_text =
                       (if extra_paths \<noteq> [] then write_extras env fs extra_paths (out @ extras_banner)
                        else out),
                     printed_summary =
                       ''Wrote '' @ str_nat cnt @ '' in-tree files + ''
                       @ str_nat (length extra_paths) @ '' extras into: '' @ str_abs out_file @ nl\<rparr>))"

subsection \<open>What the specification says about the dump\<close>

text \<open>
  Every file below a directory, found by the same traversal with nothing left out; the
  condition under which the code keeps one of them, given its path relative to the
  source directory; and the well-formed file systems, in which the names of a directory
  are distinct.
\<close>

fun files_below :: "path \<Rightarrow> node \<Rightarrow> path list"
  and files_in_dirs :: "path \<Rightarrow> (string \<times> node) list \<Rightarrow> path list" where
  "files_below current (File content) = []"
| "files_below current (Dir es) =
     map (\<lambda>fn. current @ [fn]) (filenames es) @ files_in_dirs current es"
| "files_in_dirs current [] = []"
| "files_in_dirs current ((d, File content) # es) = files_in_dirs current es"
| "files_in_dirs current ((d, Dir ds) # es) =
     files_below (current @ [d]) (Dir ds) @ files_in_dirs current es"

definition files_under :: "node \<Rightarrow> path \<Rightarrow> path list" where
  "files_under fs src_dir =
     (case lookup fs src_dir of None \<Rightarrow> [] | Some n \<Rightarrow> files_below src_dir n)"

definition inside :: "path \<Rightarrow> path \<Rightarrow> bool" where
  "inside exclude_dir p = strict_prefix exclude_dir p"

definition below_git_dir :: "path \<Rightarrow> bool" where
  "below_git_dir rel = list_ex (prefix ''.git'') (butlast rel)"

definition junk :: "path \<Rightarrow> bool" where
  "junk p = (p \<noteq> [] \<and> last p = ''.DS_Store'')"

definition dumped :: "path \<Rightarrow> path \<Rightarrow> path \<Rightarrow> bool" where
  "dumped src_dir exclude_dir p =
     (\<not> inside exclude_dir p \<and> \<not> below_git_dir (drop (length src_dir) p) \<and> \<not> junk p)"

fun wf_node :: "node \<Rightarrow> bool" and wf_entries :: "(string \<times> node) list \<Rightarrow> bool" where
  "wf_node (File content) = True"
| "wf_node (Dir es) = (distinct (map fst es) \<and> wf_entries es)"
| "wf_entries [] = True"
| "wf_entries ((name, n) # es) = (wf_node n \<and> wf_entries es)"

text \<open>
  The same file system with its directories listed in another order: \<open>f\<close> rearranges
  the entries of the directory at the given path.
\<close>

fun relist :: "(path \<Rightarrow> (string \<times> node) list \<Rightarrow> (string \<times> node) list) \<Rightarrow> path \<Rightarrow> node \<Rightarrow> node"
  and relist_entries ::
    "(path \<Rightarrow> (string \<times> node) list \<Rightarrow> (string \<times> node) list) \<Rightarrow> path
       \<Rightarrow> (string \<times> node) list \<Rightarrow> (string \<times> node) list" where
  "relist f current (File content) = File content"
| "relist f current (Dir es) = Dir (f current (relist_entries f current es))"
| "relist_entries f current [] = []"
| "relist_entries f current ((name, n) # es) =
     (name, relist f (current @ [name]) n) # relist_entries f current es"

definition reorders :: "(path \<Rightarrow> (string \<times> node) list \<Rightarrow> (string \<times> node) list) \<Rightarrow> bool" where
  "reorders f = (\<forall>p es. mset (f p es) = mset es)"

text \<open>
  What one directory entry contributes to the file names and to the traversal of its
  directory.
\<close>

fun entry_files :: "string \<times> node \<Rightarrow> string list" where
  "entry_files (fn, File content) = [fn]"
| "entry_files (d, Dir ds) = []"

fun entry_walk :: "path \<Rightarrow> path \<Rightarrow> string \<times> node \<Rightarrow> path list" where
  "entry_walk ex cur (d, File content) = []"
| "entry_walk ex cur (d, Dir ds) =
     (if keep_dir ex cur d then walk ex (cur @ [d]) (Dir ds) else [])"

text \<open>The text of the sections of a list of files, and of the part for the extras.\<close>

definition sections :: "dump_env \<Rightarrow> node \<Rightarrow> path \<Rightarrow> path list \<Rightarrow> string" where
  "sections env fs src_dir files =
     concat (map (\<lambda>p. file_section env fs (drop (length src_dir) p) p) files)"

definition extras_text :: "dump_env \<Rightarrow> node \<Rightarrow> path list \<Rightarrow> string" where
  "extras_text env fs extra_paths =
     (if extra_paths = [] then []
      else extras_banner @ concat (map (extra_section env fs) extra_paths))"

definition summary :: "nat \<Rightarrow> nat \<Rightarrow> path \<Rightarrow> string" where
  "summary n_files n_extras out_file =
     ''Wrote '' @ str_nat n_files @ '' in-tree files + '' @ str_nat n_extras
     @ '' extras into: '' @ str_abs out_file @ nl"

section \<open>Environments for evaluation\<close>

text \<open>
  A stand-in for the libraries with no detector state: the parser knows three lines, the
  detectors report one pose landmark and no hands on every frame, and the colour
  conversion is the identity.
\<close>

definition line_1x1 :: string where
  "line_1x1 = ''{\"width\": 1, \"height\": 1, \"data\": [0, 0, 0]}'' @ [CHR 0x0A]"

definition line_minus1 :: string where
  "line_minus1 = ''{\"width\": 2, \"height\": -1, \"data\": [0, 0, 0, 0, 0, 0]}'' @ [CHR 0x0A]"

definition line_short :: string where
  "line_short = ''{\"width\": 2, \"height\": 1, \"data\": [0, 0, 0]}'' @ [CHR 0x0A]"

definition request_1x1 :: pyval where
  "request_1x1 =
     PDict [(''width'', PInt 1), (''height'', PInt 1), (''data'', PList [PInt 0, PInt 0, PInt 0])]"

definition request_minus1 :: pyval where
  "request_minus1 =
     PDict [(''width'', PInt 2), (''height'', PInt (- 1)),
            (''data'', PList [PInt 0, PInt 0, PInt 0, PInt 0, PInt 0, PInt 0])]"

definition request_short :: pyval where
  "request_short =
     PDict [(''width'', PInt 2), (''height'', PInt 1), (''data'', PList [PInt 0, PInt 0, PInt 0])]"

definition stub_loads :: "string \<Rightarrow> exn + pyval" where
  "stub_loads line =
     (if line = line_1x1 then Inr request_1x1
      else if line = line_minus1 then Inr request_minus1
      else if line = line_short then Inr request_short
      else Inl JSONDecodeError)"

definition stub_env :: "unit env" where
  "stub_env =
     \<lparr>json_loads = stub_loads,
      np_array_other = (\<lambda>v. Inl TypeError),
      cvt_color = Inr,
      pose_process = (\<lambda>s frame. (Inr (Some [Landmark 0 0 0]), s)),
      hands_process = (\<lambda>s frame. (Inr None, s)),
      import_packages = None,
      service_init = Inr ()\<rparr>"

definition failing_env :: "unit env" where
  "failing_env = stub_env\<lparr>service_init := Inl OtherError\<rparr>"

definition one_landmark_result :: pyval where
  "one_landmark_result =
     PDict [(''pose_landmarks'', PList [PList [PFloat 0, PFloat 0, PFloat 0]]),
            (''hand_landmarks'', PList [])]"

text \<open>
  Stand-ins for the runtime of the dump utility, and three small file systems. The
  decoders treat the bytes below 128 as ASCII and every other byte as invalid, with a
  question mark as the replacement character.
\<close>

definition ascii :: "byte \<Rightarrow> char" where
  "ascii b = char_of (unat b)"

definition ascii_env :: dump_env where
  "ascii_env =
     \<lparr>read_text_utf8 = (\<lambda>bs. if list_all (\<lambda>b. b < 128) bs then Some (map ascii bs) else None),
      decode_replace = map (\<lambda>b. if b < 128 then ascii b else CHR ''?''),
      error_text = (\<lambda>p. ''Permission denied'')\<rparr>"

definition tree_abc :: node where
  "tree_abc =
     Dir [(''proj'',
            Dir [(''sub'', Dir [(''b.txt'', File (Some [98]))]),
                 (''bin'', Dir [(''c.txt'', File (Some [99]))]),
                 (''a.txt'', File (Some [97]))]),
          (''extra.toml'', File (Some [101]))]"



definition proj :: path where
  "proj = [''proj'']"

definition proj_bin :: path where
  "proj_bin = [''proj'', ''bin'']"

definition dump_txt :: path where
  "dump_txt = [''out'', ''dump.txt'']"

section \<open>Properties of the frame relay\<close>

declare run_loop.simps [simp del]

subsection \<open>One frame\<close>

lemma process_frame_returns:
  "\<exists>result s'. process_frame env s frame_data = (Inr result, s') \<and>
     (result = empty_result \<or> (\<exists>p h. result = build_result p h))"
  unfolding process_frame_def
  by (cases "process_frame_try env s frame_data")
     (auto simp: process_frame_try_def split: sum.splits prod.splits)

text \<open>
  Claim C9. \<open>MediaPipeService.process_frame\<close> is total over arbitrary parsed inputs:
  whatever the value is (not a dictionary, a dictionary without one of the keys,
  dimensions that cannot be reshaped to) and whatever the libraries do, it returns a
  dictionary whose keys are exactly \<open>pose_landmarks\<close> and \<open>hand_landmarks\<close>, and no
  exception reaches the caller.
\<close>

theorem process_frame_total:
  "\<exists>result s'. process_frame env s frame_data = (Inr result, s') \<and>
     dict_keys result = Some [''pose_landmarks'', ''hand_landmarks'']"
  using process_frame_returns [of env s frame_data]
  by (auto simp: empty_result_def build_result_def)

lemma reshape_mismatch:
  "0 \<le> w \<Longrightarrow> 0 \<le> h \<Longrightarrow> int (length (samples a)) \<noteq> w * h * 3 \<Longrightarrow>
     \<exists>e. reshape a [PInt h, PInt w, PInt 3] = Inl e"
  by (auto simp: reshape_def reshape_dims_def Let_def mult_ac split: sum.splits)

lemma reshape_match:
  "0 \<le> w \<Longrightarrow> 0 \<le> h \<Longrightarrow> w < 2 ^ 63 \<Longrightarrow> h < 2 ^ 63 \<Longrightarrow> int (length (samples a)) = w * h * 3 \<Longrightarrow>
     reshape a [PInt h, PInt w, PInt 3] = Inr (a\<lparr>shape := [h, w, 3]\<rparr>)"
  by (auto simp: reshape_def reshape_dims_def Let_def mult_ac split: sum.splits)

lemma frame_fields_SomeD:
  "frame_fields fd = Some (w, h, bs) \<Longrightarrow>
     \<exists>vs. getitem fd ''width'' = Inr (PInt w) \<and> getitem fd ''height'' = Inr (PInt h)
       \<and> getitem fd ''data'' = Inr (PList vs) \<and> flat_samples vs = Some bs"
  by (auto simp: frame_fields_def split: sum.splits pyval.splits option.splits)

lemma process_frame_mismatch:
  assumes "frame_fields fd = Some (w, h, bs)" "0 \<le> w" "0 \<le> h" "int (length bs) \<noteq> w * h * 3"
  shows "process_frame env s fd = (Inr empty_result, s)"
proof -
  from frame_fields_SomeD [OF assms(1)] obtain vs where
    g: "getitem fd ''width'' = Inr (PInt w)" "getitem fd ''height'' = Inr (PInt h)"
       "getitem fd ''data'' = Inr (PList vs)" and f: "flat_samples vs = Some bs"
    by blast
  let ?a = "\<lparr>shape = [int (length bs)], samples = bs\<rparr>"
  from reshape_mismatch [of w h ?a] assms obtain e where
    "reshape ?a [PInt h, PInt w, PInt 3] = Inl e" by auto
  with g f show ?thesis
    by (simp add: process_frame_def process_frame_try_def)
qed

lemma process_frame_valid:
  assumes "frame_fields fd = Some (w, h, bs)" "0 \<le> w" "0 \<le> h" "w < 2 ^ 63" "h < 2 ^ 63"
    "int (length bs) = w * h * 3"
  shows "process_frame env s fd =
     (case detect env s \<lparr>shape = [h, w, 3], samples = bs\<rparr> of
        (None, s') \<Rightarrow> (Inr empty_result, s')
      | (Some result, s') \<Rightarrow> (Inr result, s'))"
proof -
  from frame_fields_SomeD [OF assms(1)] obtain vs where
    g: "getitem fd ''width'' = Inr (PInt w)" "getitem fd ''height'' = Inr (PInt h)"
       "getitem fd ''data'' = Inr (PList vs)" and f: "flat_samples vs = Some bs"
    by blast
  let ?a = "\<lparr>shape = [int (length bs)], samples = bs\<rparr>"
  from reshape_match [of w h ?a] assms have
    "reshape ?a [PInt h, PInt w, PInt 3] = Inr \<lparr>shape = [h, w, 3], samples = bs\<rparr>" by simp
  with g f show ?thesis
    by (simp add: process_frame_def process_frame_try_def detect_def split: prod.splits sum.splits)
qed


lemma processor_short:
  "length buf \<noteq> 2764800 \<Longrightarrow> processor_process_frame env s buf = (Inl ValueError, s)"
  by (simp add: processor_process_frame_def reshape_def reshape_dims_def np_frombuffer_def)

lemma processor_full:
  "length buf = 2764800 \<Longrightarrow>
     processor_process_frame env s buf =
       (case cvt_color env \<lparr>shape = [720, 1280, 3], samples = buf\<rparr> of
          Inl e \<Rightarrow> (Inl e, s)
        | Inr rgb_frame \<Rightarrow>
            (case pose_process env s rgb_frame of
               (Inl e, s1) \<Rightarrow> (Inl e, s1)
             | (Inr pose_results, s1) \<Rightarrow>
                 (case hands_process env s1 rgb_frame of
                    (Inl e, s2) \<Rightarrow> (Inl e, s2)
                  | (Inr hands_results, s2) \<Rightarrow>
                      (Inr (Json_dumps (build_result pose_results hands_results)), s2))))"
  by (simp add: processor_process_frame_def reshape_def reshape_dims_def np_frombuffer_def)

lemma frame_fields_1x1: "frame_fields request_1x1 = Some (1, 1, [0, 0, 0])"
  by (simp add: frame_fields_def request_1x1_def)

lemma valid_1x1: "valid_frame request_1x1"
  by (simp add: valid_frame_def frame_fields_1x1)

text \<open>
  Claim C1, as amended. \<open>MediaPipeService.process_frame\<close> answers every valid frame
  request (positive width \<open>W\<close> and height \<open>H\<close>, \<open>W*H*3\<close> samples) with one dictionary
  holding both \<open>pose_landmarks\<close> and \<open>hand_landmarks\<close> and never raises; when the
  dimensions fit the index type it is the result of running both detectors on the
  \<open>H\<close> by \<open>W\<close> by 3 frame of those samples, or the empty result if a detector raised.
  \<open>MediaPipeProcessor.process_frame\<close> takes the bare buffer and a fixed shape: a buffer
  whose length is not \<open>720*1280*3\<close> makes it raise \<open>ValueError\<close>, and on a buffer of
  that length it returns the serialised two-field result unless the colour conversion
  or a detector raises, in which case the exception reaches the caller.
\<close>

theorem frame_processing_both_variants:
  "(valid_frame frame_data \<longrightarrow>
      (\<exists>result s'. process_frame env s frame_data = (Inr result, s')
         \<and> dict_keys result = Some [''pose_landmarks'', ''hand_landmarks'']))
   \<and> (frame_fields frame_data = Some (w, h, bs) \<and> valid_frame frame_data
        \<and> w < 2 ^ 63 \<and> h < 2 ^ 63 \<longrightarrow>
      process_frame env s frame_data =
        (case detect env s \<lparr>shape = [h, w, 3], samples = bs\<rparr> of
           (None, s') \<Rightarrow> (Inr empty_result, s')
         | (Some result, s') \<Rightarrow> (Inr result, s')))
   \<and> (length buf \<noteq> 720 * 1280 * 3 \<longrightarrow>
        processor_process_frame env s buf = (Inl ValueError, s))
   \<and> (length buf = 720 * 1280 * 3 \<longrightarrow>
        processor_process_frame env s buf =
          (case cvt_color env \<lparr>shape = [720, 1280, 3], samples = buf\<rparr> of
             Inl e \<Rightarrow> (Inl e, s)
           | Inr rgb_frame \<Rightarrow>
               (case pose_process env s rgb_frame of
                  (Inl e, s1) \<Rightarrow> (Inl e, s1)
                | (Inr pose_results, s1) \<Rightarrow>
                    (case hands_process env s1 rgb_frame of
                       (Inl e, s2) \<Rightarrow> (Inl e, s2)
                     | (Inr hands_results, s2) \<Rightarrow>
                         (Inr (Json_dumps (build_result pose_results hands_results)), s2)))))"
proof (intro conjI impI)
  show "\<exists>result s'. process_frame env s frame_data = (Inr result, s')
         \<and> dict_keys result = Some [''pose_landmarks'', ''hand_landmarks'']"
    using process_frame_returns [of env s frame_data]
    by (auto simp: empty_result_def build_result_def)
next
  assume a: "frame_fields frame_data = Some (w, h, bs) \<and> valid_frame frame_data
        \<and> w < 2 ^ 63 \<and> h < 2 ^ 63"
  then have "0 \<le> w" "0 \<le> h" "int (length bs) = w * h * 3"
    by (auto simp: valid_frame_def)
  with a show "process_frame env s frame_data =
        (case detect env s \<lparr>shape = [h, w, 3], samples = bs\<rparr> of
           (None, s') \<Rightarrow> (Inr empty_result, s')
         | (Some result, s') \<Rightarrow> (Inr result, s'))"
    by (intro process_frame_valid) auto
next
  assume "length buf \<noteq> 720 * 1280 * 3"
  then show "processor_process_frame env s buf = (Inl ValueError, s)"
    by (simp add: processor_short)
next
  assume "length buf = 720 * 1280 * 3"
  then show "processor_process_frame env s buf =
          (case cvt_color env \<lparr>shape = [720, 1280, 3], samples = buf\<rparr> of
             Inl e \<Rightarrow> (Inl e, s)
           | Inr rgb_frame \<Rightarrow>
               (case pose_process env s rgb_frame of
                  (Inl e, s1) \<Rightarrow> (Inl e, s1)
                | (Inr pose_results, s1) \<Rightarrow>
                    (case hands_process env s1 rgb_frame of
                       (Inl e, s2) \<Rightarrow> (Inl e, s2)
                     | (Inr hands_results, s2) \<Rightarrow>
                         (Inr (Json_dumps (build_result pose_results hands_results)), s2))))"
    by (simp add: processor_full)
qed

theorem frame_processing_both_variants_witness:
  "valid_frame request_1x1
   \<and> frame_fields request_1x1 = Some (1, 1, [0, 0, 0])
   \<and> process_frame stub_env () request_1x1 = (Inr one_landmark_result, ())
   \<and> length [0, 0, 0 :: byte] \<noteq> 720 * 1280 * 3
   \<and> processor_process_frame stub_env () [0, 0, 0] = (Inl ValueError, ())
   \<and> length (replicate 2764800 (0 :: byte)) = 720 * 1280 * 3
   \<and> processor_process_frame stub_env () (replicate 2764800 0)
       = (Inr (Json_dumps one_landmark_result), ())"
  using frame_processing_both_variants
          [of request_1x1 stub_env "()" 1 1 "[0, 0, 0]" "[0, 0, 0]"]
        frame_processing_both_variants
          [of request_1x1 stub_env "()" 1 1 "[0, 0, 0]" "replicate 2764800 0"]
        valid_1x1 frame_fields_1x1
  by (simp add: detect_def stub_env_def build_result_def xyz_def one_landmark_result_def)

text \<open>
  The claim as it was stated fails for the second variant: the valid one by one frame of
  three samples makes \<open>MediaPipeProcessor.process_frame\<close> raise.
\<close>

theorem processor_rejects_valid_frame:
  "valid_frame request_1x1
   \<and> frame_fields request_1x1 = Some (1, 1, [0, 0, 0])
   \<and> processor_process_frame stub_env () [0, 0, 0] = (Inl ValueError, ())"
  by (simp add: valid_1x1 frame_fields_1x1 processor_short)


subsection \<open>The loop\<close>

lemma readline_empty: "fst (readline inp) = [] \<longleftrightarrow> inp = []"
  by (cases inp) (auto split: prod.splits)

lemma input_lines_unfold:
  "input_lines inp =
     (if inp = [] then [] else fst (readline inp) # input_lines (snd (readline inp)))"
proof (induction inp)
  case Nil
  show ?case by simp
next
  case (Cons c cs)
  show ?case
  proof (cases "cs = []")
    case True
    then show ?thesis by simp
  next
    case False
    with Cons show ?thesis
      by (auto split: prod.splits list.splits)
  qed
qed

lemma readline_input_lines:
  "fst (readline inp) \<noteq> [] \<Longrightarrow>
     input_lines inp = fst (readline inp) # input_lines (snd (readline inp))"
  using input_lines_unfold [of inp] by (simp add: readline_empty)

lemma run_loop_exchanges:
  "run_loop env s inp =
     exchanges (input_lines inp) (responses env s (input_lines inp)) @ [Read_line []]"
proof (induction env s inp rule: run_loop.induct)
  case (1 env s inp)
  show ?case
  proof (cases "fst (readline inp) = []")
    case True
    then have "inp = []" by (simp add: readline_empty)
    then show ?thesis by (simp add: run_loop.simps)
  next
    case False
    from False "1.IH" readline_input_lines [OF False] show ?thesis
      by (subst run_loop.simps) simp
  qed
qed




lemma run_iteration_rejected:
  "rejected_line env line \<Longrightarrow> run_iteration env s line = (empty_result, s)"
  by (auto simp: rejected_line_def run_iteration_def process_frame_mismatch
           split: sum.splits option.splits)

text \<open>
  Claim C2, as amended. When the line just read does not parse, or parses to a request
  with a width and a height that are not negative and a flat sample list whose length
  is not width times height times three, the service prints exactly one empty result
  for it, leaves the detectors untouched and goes on to read what follows.
\<close>

theorem rejected_line_empty_result:
  assumes "readline inp = (line, rest)" and "line \<noteq> []" and "rejected_line env line"
  shows "run_loop env s inp = Read_line line # Print_json empty_result # run_loop env s rest"
  using assms by (subst run_loop.simps) (simp add: run_iteration_rejected)

lemma readline_short: "readline line_short = (line_short, [])"
  by (simp add: line_short_def)

lemma readline_minus1: "readline line_minus1 = (line_minus1, [])"
  by (simp add: line_minus1_def)

lemma loads_short: "json_loads stub_env line_short = Inr request_short"
  by (simp add: stub_env_def stub_loads_def line_short_def line_1x1_def line_minus1_def)

lemma loads_minus1: "json_loads stub_env line_minus1 = Inr request_minus1"
  by (simp add: stub_env_def stub_loads_def line_short_def line_1x1_def line_minus1_def)

lemma loads_garbage: "json_loads stub_env ''x'' = Inl JSONDecodeError"
  by (simp add: stub_env_def stub_loads_def line_short_def line_1x1_def line_minus1_def)

lemma run_loop_Nil: "run_loop env s [] = [Read_line []]"
  by (subst run_loop.simps) simp

theorem rejected_line_empty_result_witness:
  "readline line_short = (line_short, [])
   \<and> line_short \<noteq> []
   \<and> rejected_line stub_env line_short
   \<and> run_loop stub_env () line_short
       = [Read_line line_short, Print_json empty_result, Read_line []]
   \<and> readline ''x'' = (''x'', [])
   \<and> rejected_line stub_env ''x''
   \<and> run_loop stub_env () ''x'' = [Read_line ''x'', Print_json empty_result, Read_line []]"
proof -
  have r1: "rejected_line stub_env line_short"
    by (simp add: rejected_line_def loads_short frame_fields_def request_short_def)
  have n1: "line_short \<noteq> []" by (simp add: line_short_def)
  have r2: "rejected_line stub_env ''x''"
    by (simp add: rejected_line_def loads_garbage)
  have q2: "readline ''x'' = (''x'', [])" by simp
  show ?thesis
    using rejected_line_empty_result [OF readline_short n1 r1, of "()"]
          rejected_line_empty_result [OF q2 _ r2, of "()"]
    by (simp add: run_loop_Nil readline_short n1 r1 r2)
qed

text \<open>
  The claim as it was stated fails at a height of \<open>-1\<close>: six samples are not
  \<open>2 * (-1) * 3\<close>, yet the array library infers the height, the detectors run on the
  one by two frame, and what they report is printed.
\<close>

theorem negative_height_not_rejected:
  "readline line_minus1 = (line_minus1, [])
   \<and> json_loads stub_env line_minus1 = Inr request_minus1
   \<and> frame_fields request_minus1 = Some (2, - 1, [0, 0, 0, 0, 0, 0])
   \<and> int (length [0, 0, 0, 0, 0, 0 :: byte]) \<noteq> 2 * (- 1) * 3
   \<and> run_loop stub_env () line_minus1
       = [Read_line line_minus1, Print_json one_landmark_result, Read_line []]
   \<and> one_landmark_result \<noteq> empty_result"
proof -
  have f: "frame_fields request_minus1 = Some (2, - 1, [0, 0, 0, 0, 0, 0])"
    by (simp add: frame_fields_def request_minus1_def)
  have p: "process_frame stub_env () request_minus1 = (Inr one_landmark_result, ())"
    by (simp add: process_frame_def process_frame_try_def request_minus1_def reshape_def
          reshape_dims_def stub_env_def build_result_def xyz_def one_landmark_result_def)
  have n: "line_minus1 \<noteq> []" by (simp add: line_minus1_def)
  have "run_loop stub_env () line_minus1
       = [Read_line line_minus1, Print_json one_landmark_result, Read_line []]"
    by (subst run_loop.simps)
       (simp add: readline_minus1 n run_iteration_def loads_minus1 p run_loop_Nil)
  then show ?thesis
    by (simp add: readline_minus1 loads_minus1 f one_landmark_result_def empty_result_def)
qed

subsection \<open>The entry point\<close>

lemma input_lines_nonempty: "[] \<notin> set (input_lines inp)"
  by (induction inp) (auto split: list.splits)

lemma exchanges_no_eof: "[] \<notin> set ls \<Longrightarrow> Read_line [] \<notin> set (exchanges ls rs)"
  by (induction ls rs rule: exchanges.induct) auto

lemma printed_snoc_read: "printed (evs @ [Read_line l]) = printed evs"
  by (induction evs rule: printed.induct) auto

text \<open>
  Claim C4. When the packages import and the detectors are constructed, the process
  exits with status 0; the read that finds the end of the input is the last event, it
  happens once, and nothing is printed after it. When constructing the detectors
  fails, the process exits with a status other than 0 and prints nothing.
\<close>

theorem main_exit_status:
  "(import_packages env = None \<and> service_init env = Inr s \<longrightarrow>
      exit_status (main env inp) = 0
      \<and> (\<exists>evs. trace (main env inp) = evs @ [Read_line []]
            \<and> Read_line [] \<notin> set evs
            \<and> printed (trace (main env inp)) = printed evs))
   \<and> (service_init env = Inl e \<longrightarrow>
      exit_status (main env inp) \<noteq> 0 \<and> trace (main env inp) = [])"
proof (intro conjI impI)
  assume a: "import_packages env = None \<and> service_init env = Inr s"
  then show "exit_status (main env inp) = 0" by (simp add: main_def)
  let ?evs = "Print_ready # exchanges (input_lines inp) (responses env s (input_lines inp))"
  have t: "trace (main env inp) = ?evs @ [Read_line []]"
    using a by (simp add: main_def run_def run_loop_exchanges)
  have "Read_line [] \<notin> set ?evs"
    using exchanges_no_eof [OF input_lines_nonempty] by simp
  moreover have "printed (?evs @ [Read_line []]) = printed ?evs"
    by (rule printed_snoc_read)
  ultimately show "\<exists>evs. trace (main env inp) = evs @ [Read_line []]
            \<and> Read_line [] \<notin> set evs
            \<and> printed (trace (main env inp)) = printed evs"
    using t by metis
next
  assume "service_init env = Inl e"
  then show "exit_status (main env inp) \<noteq> 0" by (simp add: main_def split: option.splits)
next
  assume "service_init env = Inl e"
  then show "trace (main env inp) = []" by (simp add: main_def split: option.splits)
qed


theorem main_exit_status_witness:
  "import_packages stub_env = None \<and> service_init stub_env = Inr ()
   \<and> exit_status (main stub_env line_1x1) = 0
   \<and> service_init failing_env = Inl OtherError
   \<and> exit_status (main failing_env line_1x1) \<noteq> 0
   \<and> trace (main failing_env line_1x1) = []"
  using main_exit_status [of stub_env "()" line_1x1]
        main_exit_status [of failing_env _ line_1x1 OtherError]
  by (simp add: stub_env_def failing_env_def)

section \<open>Properties of the dump utility\<close>

lemma files_below_form:
  "p \<in> set (files_below current n) \<Longrightarrow> \<exists>r. r \<noteq> [] \<and> p = current @ r"
  "p \<in> set (files_in_dirs current es) \<Longrightarrow> \<exists>d r. r \<noteq> [] \<and> p = current @ d # r"
proof (induction current n and current es arbitrary: p and p rule: files_below_files_in_dirs.induct)
  case (2 current es)
  then show ?case by fastforce
next
  case (5 current d ds es)
  from "5.prems" consider "p \<in> set (files_below (current @ [d]) (Dir ds))"
    | "p \<in> set (files_in_dirs current es)" by auto
  then show ?case
  proof cases
    case 1
    from "5.IH"(1) [OF 1] show ?thesis by auto
  next
    case 2
    from "5.IH"(2) [OF 2] show ?thesis .
  qed
qed auto

lemma strict_prefix_snoc_iff: "strict_prefix xs (ys @ [y]) \<longleftrightarrow> prefix xs ys"
  by (auto simp: strict_prefix_def prefix_snoc)

lemma below_git_dir_Cons:
  "r \<noteq> [] \<Longrightarrow> below_git_dir (d # r) \<longleftrightarrow> prefix ''.git'' d \<or> below_git_dir r"
  by (simp add: below_git_dir_def)

lemma keep_cond:
  assumes "p \<in> set (files_below (cur @ [d]) n)"
  shows "(keep_dir ex cur d \<and> \<not> inside ex p
            \<and> \<not> below_git_dir (drop (length (cur @ [d])) p) \<and> \<not> junk p)
         \<longleftrightarrow> (\<not> inside ex p \<and> \<not> below_git_dir (drop (length cur) p) \<and> \<not> junk p)"
proof -
  from files_below_form(1) [OF assms] obtain r where r: "r \<noteq> []" "p = (cur @ [d]) @ r"
    by blast
  have "inside ex p" if "cur @ [d] = ex"
    using that r by (auto simp: inside_def strict_prefix_def)
  then show ?thesis
    using r by (auto simp: keep_dir_def below_git_dir_Cons)
qed

lemma yield_files_set:
  "set (yield_files ex cur fns) =
     {p \<in> (\<lambda>fn. cur @ [fn]) ` set fns.
        \<not> inside ex p \<and> \<not> below_git_dir (drop (length cur) p) \<and> \<not> junk p}"
  by (auto simp: yield_files_def inside_def strict_prefix_snoc_iff below_git_dir_def junk_def
        prefix_order.le_less)

lemma walk_set:
  "set (walk ex cur n) =
     {p \<in> set (files_below cur n).
        \<not> inside ex p \<and> \<not> below_git_dir (drop (length cur) p) \<and> \<not> junk p}"
  "set (walk_dirs ex cur es) =
     {p \<in> set (files_in_dirs cur es).
        \<not> inside ex p \<and> \<not> below_git_dir (drop (length cur) p) \<and> \<not> junk p}"
proof (induction ex cur n and ex cur es rule: walk_walk_dirs.induct)
  case (2 ex cur es)
  then show ?case by (auto simp: yield_files_set)
next
  case (5 ex cur d ds es)
  show ?case
  proof (cases "keep_dir ex cur d")
    case True
    with 5 keep_cond [of _ cur d "Dir ds" ex] show ?thesis
      by (simp del: files_below.simps walk.simps) blast
  next
    case False
    with 5 keep_cond [of _ cur d "Dir ds" ex] show ?thesis
      by (simp del: files_below.simps walk.simps) blast
  qed
qed auto


lemma iter_files_set:
  "set (iter_files fs src ex) = {p \<in> set (files_under fs src). dumped src ex p}"
  by (auto simp: iter_files_def files_under_def dumped_def walk_set split: option.splits)

lemma files_below_prefix: "p \<in> set (files_below cur n) \<Longrightarrow> prefix cur p"
  using files_below_form(1) [of p cur n] by auto

lemma iter_files_prefix: "p \<in> set (iter_files fs src ex) \<Longrightarrow> prefix src p"
  by (auto simp: iter_files_set files_under_def files_below_prefix split: option.splits)

lemma write_files_sections:
  "\<forall>p \<in> set ps. prefix src p \<Longrightarrow>
     write_files env fs src ps (out, cnt) = Inr (out @ sections env fs src ps, cnt + length ps)"
  by (induction ps arbitrary: out cnt) (auto simp: sections_def relative_to_def)

lemma write_extras_text:
  "write_extras env fs xps out = out @ concat (map (extra_section env fs) xps)"
  by (induction xps arbitrary: out) auto

lemma write_combined_output_shape:
  "write_combined_output env fs src ex out_file extras =
     (if open_ok fs out_file
      then Inr \<lparr>out_text = dump_header src ex
                    @ sections env fs src (sort (iter_files fs src ex))
                    @ extras_text env fs extras,
                printed_summary = summary (length (iter_files fs src ex)) (length extras) out_file\<rparr>
      else Inl Output_error)"
proof -
  have "\<forall>p \<in> set (sort (iter_files fs src ex)). prefix src p"
    by (simp add: iter_files_prefix)
  from write_files_sections [OF this] show ?thesis
    by (simp add: write_combined_output_def write_extras_text extras_text_def summary_def)
qed






lemma wf_entries_map_of: "wf_entries es \<Longrightarrow> map_of es c = Some n \<Longrightarrow> wf_node n"
  by (induction es) (auto split: if_splits)








lemma relist_entries_names: "map fst (relist_entries f cur es) = map fst es"
  by (induction es) auto

lemma map_of_relist_entries:
  "map_of (relist_entries f cur es) c = map_option (relist f (cur @ [c])) (map_of es c)"
  by (induction es) auto

lemma map_of_reordered:
  assumes "reorders f" and "distinct (map fst es)"
  shows "map_of (f cur es) = map_of es"
proof -
  from assms(1) have m: "mset (f cur es) = mset es" by (simp add: reorders_def)
  then have "mset (map fst (f cur es)) = mset (map fst es)" by simp
  with assms(2) have "distinct (map fst (f cur es))"
    using mset_eq_imp_distinct_iff by blast
  with assms(2) mset_eq_setD [OF m] show ?thesis
    by (simp add: map_of_inject_set)
qed

lemma lookup_relist:
  assumes "reorders f"
  shows "wf_node n \<Longrightarrow> lookup (relist f cur n) p = map_option (relist f (cur @ p)) (lookup n p)"
proof (induction p arbitrary: n cur)
  case Nil
  then show ?case by simp
next
  case (Cons c cs)
  show ?case
  proof (cases n)
    case (File content)
    then show ?thesis by simp
  next
    case (Dir es)
    with Cons.prems have d: "distinct (map fst es)" and w: "wf_entries es" by auto
    from d have "distinct (map fst (relist_entries f cur es))"
      by (simp add: relist_entries_names)
    from map_of_reordered [OF assms this] have
      m: "map_of (f cur (relist_entries f cur es)) c
            = map_option (relist f (cur @ [c])) (map_of es c)"
      by (simp add: map_of_relist_entries)
    show ?thesis
    proof (cases "map_of es c")
      case None
      with Dir m show ?thesis by simp
    next
      case (Some n')
      with w have "wf_node n'" by (rule wf_entries_map_of)
      from Cons.IH [OF this, of "cur @ [c]"] Dir m Some show ?thesis by simp
    qed
  qed
qed

lemma read_file_relist:
  assumes "reorders f" and "wf_node fs"
  shows "read_file_as_text env (relist f [] fs) p = read_file_as_text env fs p"
proof -
  from lookup_relist [OF assms, of "[]" p] have
    l: "lookup (relist f [] fs) p = map_option (relist f p) (lookup fs p)" by simp
  show ?thesis
  proof (cases "lookup fs p")
    case None
    with l show ?thesis by (simp add: read_file_as_text_def)
  next
    case (Some n)
    with l show ?thesis by (cases n) (simp_all add: read_file_as_text_def)
  qed
qed

lemma mkdir_ok_relist:
  assumes "reorders f"
  shows "wf_node n \<Longrightarrow> mkdir_ok (relist f cur n) p = mkdir_ok n p"
proof (induction p arbitrary: n cur)
  case Nil
  then show ?case by (cases n) auto
next
  case (Cons c cs)
  show ?case
  proof (cases n)
    case (File content)
    then show ?thesis by simp
  next
    case (Dir es)
    with Cons.prems have d: "distinct (map fst es)" and w: "wf_entries es" by auto
    from d have "distinct (map fst (relist_entries f cur es))"
      by (simp add: relist_entries_names)
    from map_of_reordered [OF assms this] have
      m: "map_of (f cur (relist_entries f cur es)) c
            = map_option (relist f (cur @ [c])) (map_of es c)"
      by (simp add: map_of_relist_entries)
    show ?thesis
    proof (cases "map_of es c")
      case None
      with Dir m show ?thesis by simp
    next
      case (Some n')
      with w have "wf_node n'" by (rule wf_entries_map_of)
      from Cons.IH [OF this, of "cur @ [c]"] Dir m Some show ?thesis by simp
    qed
  qed
qed

lemma open_ok_relist:
  assumes "reorders f" and "wf_node fs"
  shows "open_ok (relist f [] fs) out_file = open_ok fs out_file"
proof -
  from lookup_relist [OF assms, of "[]" out_file] have
    l: "lookup (relist f [] fs) out_file = map_option (relist f out_file) (lookup fs out_file)"
    by simp
  have "(case lookup (relist f [] fs) out_file of Some (Dir es) \<Rightarrow> False | _ \<Rightarrow> True)
      = (case lookup fs out_file of Some (Dir es) \<Rightarrow> False | _ \<Rightarrow> True)"
  proof (cases "lookup fs out_file")
    case None
    with l show ?thesis by simp
  next
    case (Some n)
    with l show ?thesis by (cases n) simp_all
  qed
  then show ?thesis
    by (simp add: open_ok_def mkdir_ok_relist [OF assms])
qed


lemma filenames_concat: "filenames es = concat (map entry_files es)"
  by (induction es rule: filenames.induct) auto

lemma walk_dirs_concat: "walk_dirs ex cur es = concat (map (entry_walk ex cur) es)"
  by (induction es rule: filenames.induct) auto

lemma mset_concat_map_cong:
  "mset xs = mset ys \<Longrightarrow> mset (concat (map g xs)) = mset (concat (map g ys))"
proof -
  assume "mset xs = mset ys"
  then have "image_mset (\<lambda>x. mset (g x)) (mset xs) = image_mset (\<lambda>x. mset (g x)) (mset ys)"
    by simp
  then have "mset (map (\<lambda>x. mset (g x)) xs) = mset (map (\<lambda>x. mset (g x)) ys)"
    by simp
  then have "sum_mset (mset (map (\<lambda>x. mset (g x)) xs)) = sum_mset (mset (map (\<lambda>x. mset (g x)) ys))"
    by simp
  then show ?thesis
    by (simp add: mset_concat sum_mset_sum_list comp_def del: mset_map)
qed

lemma filenames_relist_entries: "filenames (relist_entries f cur es) = filenames es"
proof (induction es rule: filenames.induct)
  case (2 fn content es)
  then show ?case by simp
next
  case (3 d ds es)
  then show ?case by simp
qed simp

lemma mset_yield_files:
  "mset fns = mset fns' \<Longrightarrow> mset (yield_files ex cur fns) = mset (yield_files ex cur fns')"
proof -
  assume a: "mset fns = mset fns'"
  then have "mset (filter (\<lambda>fn. fn \<noteq> ''.DS_Store'') fns) = mset (filter (\<lambda>fn. fn \<noteq> ''.DS_Store'') fns')"
    by (simp only: mset_filter)
  then have "mset (map (\<lambda>fn. cur @ [fn]) (filter (\<lambda>fn. fn \<noteq> ''.DS_Store'') fns))
      = mset (map (\<lambda>fn. cur @ [fn]) (filter (\<lambda>fn. fn \<noteq> ''.DS_Store'') fns'))"
    by (metis mset_map)
  then show ?thesis by (simp add: yield_files_def)
qed

lemma walk_relist:
  assumes "reorders f"
  shows "mset (walk ex cur (relist f cur n)) = mset (walk ex cur n)"
    and "mset (walk_dirs ex cur (relist_entries f cur es)) = mset (walk_dirs ex cur es)"
proof (induction ex cur n and ex cur es rule: walk_walk_dirs.induct)
  case (1 ex cur content)
  show ?case by simp
next
  case (2 ex cur es)
  let ?es' = "relist_entries f cur es"
  from assms have m: "mset (f cur ?es') = mset ?es'" by (simp add: reorders_def)
  have "mset (filenames (f cur ?es')) = mset (filenames ?es')"
    unfolding filenames_concat by (rule mset_concat_map_cong [OF m])
  then have y: "mset (yield_files ex cur (filenames (f cur ?es')))
      = mset (yield_files ex cur (filenames es))"
    using mset_yield_files [of "filenames (f cur ?es')" "filenames ?es'" ex cur]
    by (simp add: filenames_relist_entries)
  have "mset (walk_dirs ex cur (f cur ?es')) = mset (walk_dirs ex cur ?es')"
    unfolding walk_dirs_concat by (rule mset_concat_map_cong [OF m])
  with 2 have "mset (walk_dirs ex cur (f cur ?es')) = mset (walk_dirs ex cur es)" by simp
  with y show ?case by simp
next
  case (3 ex cur)
  show ?case by simp
next
  case (4 ex cur d content es)
  then show ?case by simp
next
  case (5 ex cur d ds es)
  then show ?case by (simp del: walk.simps)
qed

lemma sort_mset_cong: "mset xs = mset ys \<Longrightarrow> sort xs = sort ys"
  by (rule properties_for_sort) simp_all

lemma iter_files_relist:
  assumes "reorders f" and "wf_node fs"
  shows "mset (iter_files (relist f [] fs) src ex) = mset (iter_files fs src ex)"
  using lookup_relist [OF assms, of "[]" src] walk_relist(1) [OF assms(1)]
  by (auto simp: iter_files_def split: option.splits)

text \<open>
  Claim C6. The dump does not depend on the order in which the operating system lists
  the entries of the directories: on a well-formed file system, listing every directory
  in another order gives the same output file and the same summary. This is what
  sorting the paths achieves; everything else in the run is a function of its inputs.
\<close>

theorem dump_independent_of_listing_order:
  assumes "wf_node fs" and "reorders f"
  shows "write_combined_output env (relist f [] fs) src ex out_file extras
       = write_combined_output env fs src ex out_file extras"
proof -
  from iter_files_relist [OF assms(2,1)] have
    m: "mset (iter_files (relist f [] fs) src ex) = mset (iter_files fs src ex)" .
  then have s: "sort (iter_files (relist f [] fs) src ex) = sort (iter_files fs src ex)"
    by (rule sort_mset_cong)
  from m have len: "length (iter_files (relist f [] fs) src ex) = length (iter_files fs src ex)"
    by (metis size_mset)
  have sec: "sections env (relist f [] fs) src files = sections env fs src files" for files
    by (simp add: sections_def file_section_def read_file_relist [OF assms(2,1)])
  have "extra_section env (relist f [] fs) = extra_section env fs"
    by (rule ext) (simp add: extra_section_def read_file_relist [OF assms(2,1)])
  then have ext: "extras_text env (relist f [] fs) extras = extras_text env fs extras"
    by (simp add: extras_text_def)
  show ?thesis
    by (simp add: write_combined_output_shape open_ok_relist [OF assms(2,1)] s len sec ext)
qed










theorem dump_independent_of_listing_order_witness:
  "wf_node tree_abc
   \<and> reorders (\<lambda>p. rev)
   \<and> relist (\<lambda>p. rev) [] tree_abc \<noteq> tree_abc
   \<and> write_combined_output ascii_env (relist (\<lambda>p. rev) [] tree_abc) proj proj_bin dump_txt []
        = write_combined_output ascii_env tree_abc proj proj_bin dump_txt []"
proof -
  have w: "wf_node tree_abc" by code_simp
  have r: "reorders (\<lambda>p. rev)" by (simp add: reorders_def)
  have n: "relist (\<lambda>p. rev) [] tree_abc \<noteq> tree_abc" by (simp add: tree_abc_def)
  from dump_independent_of_listing_order [OF w r] w r n show ?thesis by blast
qed

end
